theory Spec2Isabelle
  imports Main
begin

section \<open>Text\<close>

text \<open>
  A Python \<open>str\<close> is a sequence of code points. The model uses \<open>string\<close>, one
  \<open>char\<close> per code point, so it covers the texts whose code points are below 256
  (Latin-1); \<open>length\<close> counts code points as Python does. The character classes are
  those of Python's \<open>re\<close> and \<open>str\<close> for Unicode text, restricted to that range:
  the decimal digits are \<open>0\<close> to \<open>9\<close>, and white space is the tab to carriage
  return block, the four information separators, the blank, NEL and the no-break space.
\<close>

definition isdecimal :: "char \<Rightarrow> bool" where
  "isdecimal c \<longleftrightarrow> c \<in> set ''0123456789''"

definition isspace :: "char \<Rightarrow> bool" where
  "isspace c \<longleftrightarrow> c \<in> set [CHR 0x09, CHR 0x0A, CHR 0x0B, CHR 0x0C, CHR 0x0D,
                         CHR 0x1C, CHR 0x1D, CHR 0x1E, CHR 0x1F, CHR 0x20, CHR 0x85, CHR 0xA0]"

definition maiusculas :: string where
  "maiusculas = ''ABCDEFGHIJKLMNOPQRSTUVWXYZ'' @
     [CHR 0xC0, CHR 0xC1, CHR 0xC2, CHR 0xC3, CHR 0xC4, CHR 0xC5, CHR 0xC6, CHR 0xC7,
      CHR 0xC8, CHR 0xC9, CHR 0xCA, CHR 0xCB, CHR 0xCC, CHR 0xCD, CHR 0xCE, CHR 0xCF,
      CHR 0xD0, CHR 0xD1, CHR 0xD2, CHR 0xD3, CHR 0xD4, CHR 0xD5, CHR 0xD6,
      CHR 0xD8, CHR 0xD9, CHR 0xDA, CHR 0xDB, CHR 0xDC, CHR 0xDD, CHR 0xDE]"

definition minusculas :: string where
  "minusculas = ''abcdefghijklmnopqrstuvwxyz'' @
     [CHR 0xE0, CHR 0xE1, CHR 0xE2, CHR 0xE3, CHR 0xE4, CHR 0xE5, CHR 0xE6, CHR 0xE7,
      CHR 0xE8, CHR 0xE9, CHR 0xEA, CHR 0xEB, CHR 0xEC, CHR 0xED, CHR 0xEE, CHR 0xEF,
      CHR 0xF0, CHR 0xF1, CHR 0xF2, CHR 0xF3, CHR 0xF4, CHR 0xF5, CHR 0xF6,
      CHR 0xF8, CHR 0xF9, CHR 0xFA, CHR 0xFB, CHR 0xFC, CHR 0xFD, CHR 0xFE]"

text \<open>The simple lower-case mapping that \<open>re.IGNORECASE\<close> compares with.\<close>

definition tolower :: "char \<Rightarrow> char" where
  "tolower c = (case map_of (zip maiusculas minusculas) c of Some l \<Rightarrow> l | None \<Rightarrow> c)"

text \<open>\<open>str.strip()\<close>: white space removed at both ends.\<close>

definition strip :: "string \<Rightarrow> string" where
  "strip s = rev (dropWhile isspace (rev (dropWhile isspace s)))"

text \<open>
  \<open>str.replace(old, new)\<close>: every non-overlapping occurrence of \<open>old\<close>, scanning
  from the left; an empty \<open>old\<close> matches before every character and at the end.
\<close>

function str_replace :: "string \<Rightarrow> string \<Rightarrow> string \<Rightarrow> string" where
  "str_replace old new [] = (if old = [] then new else [])"
| "str_replace old new (c # cs) =
     (if old = [] then new @ c # str_replace old new cs
      else if take (length old) (c # cs) = old
           then new @ str_replace old new (drop (length old) (c # cs))
           else c # str_replace old new cs)"
  by pat_completeness auto
termination
  by (relation "measure (\<lambda>(old, new, s). length s)") auto

section \<open>The regular expression\<close>

text \<open>
  The fragment of \<open>re\<close> that the pattern of \<open>extrair_dados_pdf\<close> uses: single
  characters of a class, greedy repetitions \<open>{lo,hi}\<close> of a class (\<open>+\<close> is
  \<open>{1,}\<close>, \<open>?\<close> is \<open>{0,1}\<close>), sequences and capturing groups.
\<close>

type_synonym charclass = "char \<Rightarrow> bool"

datatype rx = Eps | One charclass | Rep nat "nat option" charclass | Cat rx rx | Grp rx

type_synonym span = "nat \<times> nat"

definition each_result :: "'a list \<Rightarrow> ('a \<Rightarrow> 'b list) \<Rightarrow> 'b list" where
  "each_result xs f = concat (map f xs)"

text \<open>
  The backtracking matcher: \<open>rx_match r s i\<close> lists every way \<open>r\<close> matches
  \<open>s\<close> from position \<open>i\<close>, as the end position and the spans of the groups, in
  the order in which backtracking tries them. A greedy repetition tries the longest run
  first. The head of the list is the match that \<open>re\<close> reports.
\<close>

fun rx_match :: "rx \<Rightarrow> string \<Rightarrow> nat \<Rightarrow> (nat \<times> span list) list" where
  "rx_match Eps s i = [(i, [])]"
| "rx_match (One p) s i = (if i < length s \<and> p (s ! i) then [(i + 1, [])] else [])"
| "rx_match (Rep lo hi p) s i =
     (let n = length (takeWhile p (drop i s));
          m = (case hi of None \<Rightarrow> n | Some h \<Rightarrow> min h n)
      in map (\<lambda>k. (i + k, [])) (rev [lo ..< m + 1]))"
| "rx_match (Cat r1 r2) s i =
     each_result (rx_match r1 s i)
       (\<lambda>(j, g1). map (\<lambda>(k, g2). (k, g1 @ g2)) (rx_match r2 s j))"
| "rx_match (Grp r) s i = map (\<lambda>(j, g). (j, (i, j) # g)) (rx_match r s i)"

definition seq :: "rx list \<Rightarrow> rx" where
  "seq rs = foldr Cat rs Eps"

text \<open>A literal word under \<open>re.IGNORECASE\<close>.\<close>

definition lit_ic :: "string \<Rightarrow> rx" where
  "lit_ic w = foldr (\<lambda>p r. Cat (One (\<lambda>c. tolower c = tolower p)) r) w Eps"

text \<open>\<open>[\d\.]\<close>\<close>

definition cls_valor :: charclass where
  "cls_valor c \<longleftrightarrow> isdecimal c \<or> c = CHR ''.''"

text \<open>\<open>[CD]\<close> under \<open>re.IGNORECASE\<close>\<close>

definition cls_cd :: charclass where
  "cls_cd c \<longleftrightarrow> tolower c \<in> set ''cd''"

text \<open>\<open>\d{2}/\d{2}/\d{2,4}\<close>\<close>

definition rx_data :: rx where
  "rx_data = seq [Rep 2 (Some 2) isdecimal, One (\<lambda>c. c = CHR ''/''),
                  Rep 2 (Some 2) isdecimal, One (\<lambda>c. c = CHR ''/''),
                  Rep 2 (Some 4) isdecimal]"

text \<open>\<open>[\d\.],\d{2}\<close>: the class has no quantifier in the source.\<close>

definition rx_valor :: rx where
  "rx_valor = seq [One cls_valor, One (\<lambda>c. c = CHR '',''), Rep 2 (Some 2) isdecimal]"

text \<open>
  \<^verbatim>\<open>(\d{2}/\d{2}/\d{2,4})\s+\d+\s+SALDO DIA\s+[\d\.],\d{2}\s[CD]?\s+([\d\.],\d{2})\s[CD]?\<close>
  compiled with \<open>re.IGNORECASE\<close>.
\<close>

definition regex_saldo_dia :: rx where
  "regex_saldo_dia =
     seq [Grp rx_data, Rep 1 None isspace, Rep 1 None isdecimal, Rep 1 None isspace,
          lit_ic ''SALDO DIA'', Rep 1 None isspace,
          rx_valor, One isspace, Rep 0 (Some 1) cls_cd, Rep 1 None isspace,
          Grp rx_valor, One isspace, Rep 0 (Some 1) cls_cd]"

text \<open>
  The pattern as the specification words it, for comparison: an amount token is one or
  more characters that are digits or dots, a comma, two digits; the rest as above.
\<close>

definition rx_valor_spec :: rx where
  "rx_valor_spec = seq [Rep 1 None cls_valor, One (\<lambda>c. c = CHR '',''), Rep 2 (Some 2) isdecimal]"

definition regex_spec :: rx where
  "regex_spec =
     seq [Grp rx_data, Rep 1 None isspace, Rep 1 None isdecimal, Rep 1 None isspace,
          lit_ic ''SALDO DIA'', Rep 1 None isspace,
          rx_valor_spec, One isspace, Rep 0 (Some 1) cls_cd, Rep 1 None isspace,
          Grp rx_valor_spec, One isspace, Rep 0 (Some 1) cls_cd]"

record match =
  m_start :: nat
  m_end :: nat
  m_groups :: "span list"

text \<open>
  \<open>finditer\<close>: the leftmost match from the current position, then on from its end.
  After an empty match the scan moves one character on; the pattern of this program
  never matches the empty string (lemma \<open>regex_saldo_dia_anatomy\<close>).
\<close>

function finditer_from :: "rx \<Rightarrow> string \<Rightarrow> nat \<Rightarrow> match list" where
  "finditer_from r s pos =
     (if length s < pos then []
      else case rx_match r s pos of
             [] \<Rightarrow> finditer_from r s (pos + 1)
           | (e, g) # _ \<Rightarrow>
               \<lparr>m_start = pos, m_end = e, m_groups = g\<rparr>
                 # finditer_from r s (if pos < e then e else pos + 1))"
  by pat_completeness auto
termination
  by (relation "measure (\<lambda>(r, s, pos). length s + 1 - pos)") auto

definition finditer :: "rx \<Rightarrow> string \<Rightarrow> match list" where
  "finditer r s = finditer_from r s 0"

definition substr :: "string \<Rightarrow> span \<Rightarrow> string" where
  "substr s sp = take (snd sp - fst sp) (drop (fst sp) s)"

text \<open>\<open>match.group(k)\<close>; \<open>None\<close> is the IndexError of a group that does not exist.\<close>

definition group :: "string \<Rightarrow> match \<Rightarrow> nat \<Rightarrow> string option" where
  "group s m k =
     (if k = 0 then Some (substr s (m_start m, m_end m))
      else if k \<le> length (m_groups m) then Some (substr s (m_groups m ! (k - 1)))
      else None)"

section \<open>extrair_dados_pdf\<close>

text \<open>
  What pdfplumber gives for a file: opening raises, or there are pages, and
  \<open>extract_text\<close> of a page raises, returns \<open>None\<close> or returns a string.
  An exception is modelled by its message.
\<close>

datatype pagina = ExtractRaises string | ExtractText "string option"

datatype pdf = OpenRaises string | Pages "pagina list"

record arquivo =
  file_name :: string
  conteudo :: pdf

datatype retorno = RList "(string \<times> string) list" | RStr string

abbreviation Found :: "(string \<times> string) list \<Rightarrow> retorno" where
  "Found rs \<equiv> RList rs"

abbreviation ReadError :: retorno where
  "ReadError \<equiv> RStr ''Erro na leitura''"

record linha =
  col_arquivo :: string
  col_data :: string
  col_saldo :: string

datatype evento =
    StInfo string | StError string | StWarning string | StSuccess string
  | StProgress nat nat
  | StDataframe "string list" "linha list"
  | StDownload "linha list"

text \<open>The loop over \<open>pdf.pages\<close>; \<open>Inl\<close> is the exception that left it.\<close>

fun texto_completo :: "pagina list \<Rightarrow> string \<Rightarrow> string + string" where
  "texto_completo [] acc = Inr acc"
| "texto_completo (ExtractRaises e # ps) acc = Inl e"
| "texto_completo (ExtractText None # ps) acc = texto_completo ps acc"
| "texto_completo (ExtractText (Some texto_pagina) # ps) acc =
     (if texto_pagina \<noteq> [] then texto_completo ps (acc @ texto_pagina @ [CHR 0x0A])
      else texto_completo ps acc)"

definition ler_texto :: "pdf \<Rightarrow> string + string" where
  "ler_texto p = (case p of OpenRaises e \<Rightarrow> Inl e | Pages ps \<Rightarrow> texto_completo ps [])"

definition saldo_limpo :: "string \<Rightarrow> string" where
  "saldo_limpo saldo_bruto = str_replace ''.'' [] saldo_bruto"

text \<open>The loop over the matches, appending to \<open>resultados_encontrados\<close>.\<close>

fun resultados_encontrados ::
  "string \<Rightarrow> match list \<Rightarrow> (string \<times> string) list \<Rightarrow> string + (string \<times> string) list" where
  "resultados_encontrados s [] acc = Inr acc"
| "resultados_encontrados s (m # ms) acc =
     (case group s m 1 of
        None \<Rightarrow> Inl ''no such group''
      | Some data \<Rightarrow>
          (case group s m 2 of
             None \<Rightarrow> Inl ''no such group''
           | Some g2 \<Rightarrow>
               resultados_encontrados s ms (acc @ [(data, saldo_limpo (strip g2))])))"

text \<open>The body of the \<open>try\<close>.\<close>

definition tentar :: "pdf \<Rightarrow> string + (string \<times> string) list" where
  "tentar p =
     (case ler_texto p of
        Inl e \<Rightarrow> Inl e
      | Inr texto \<Rightarrow> resultados_encontrados texto (finditer regex_saldo_dia texto) [])"

definition extrair_dados_pdf :: "arquivo \<Rightarrow> retorno \<times> evento list" where
  "extrair_dados_pdf arquivo_pdf =
     (case tentar (conteudo arquivo_pdf) of
        Inr rs \<Rightarrow> (RList rs, [])
      | Inl e \<Rightarrow> (RStr ''Erro na leitura'', [StError (''Erro ao processar o arquivo: '' @ e)]))"

section \<open>main\<close>

definition nao_encontrado :: string where
  "nao_encontrado = ''Saldo n'' @ [CHR 0xE3] @ ''o encontrado''"

definition erro_ao_ler :: string where
  "erro_ao_ler = ''Erro ao ler PDF''"

text \<open>The branches on the return value of \<open>extrair_dados_pdf\<close>, for one file.\<close>

definition linhas_do_arquivo :: "string \<Rightarrow> retorno \<Rightarrow> linha list" where
  "linhas_do_arquivo nome resultados_extracao =
     (case resultados_extracao of
        RList rs \<Rightarrow>
          (if rs = []
           then [\<lparr>col_arquivo = nome, col_data = ''N/A'', col_saldo = nao_encontrado\<rparr>]
           else map (\<lambda>(data_ext, saldo_ext).
                  \<lparr>col_arquivo = nome, col_data = data_ext, col_saldo = saldo_ext\<rparr>) rs)
      | RStr e \<Rightarrow>
          (if e = ''Erro na leitura''
           then [\<lparr>col_arquivo = nome, col_data = ''N/A'', col_saldo = erro_ao_ler\<rparr>]
           else []))"

text \<open>The loop over the uploaded files: the rows so far and the events so far.\<close>

fun laco ::
  "nat \<Rightarrow> nat \<Rightarrow> arquivo list \<Rightarrow> linha list \<Rightarrow> evento list \<Rightarrow> linha list \<times> evento list" where
  "laco total_files i [] lista_resultados ev = (lista_resultados, ev)"
| "laco total_files i (file # files) lista_resultados ev =
     (case extrair_dados_pdf file of
        (resultados_extracao, ev_extracao) \<Rightarrow>
          laco total_files (i + 1) files
            (lista_resultados @ linhas_do_arquivo (file_name file) resultados_extracao)
            (ev @ [StInfo (''Processando: '' @ file_name file @ ''...'')] @ ev_extracao
                @ [StProgress (i + 1) total_files]))"

record estado =
  df_resultados :: "linha list"
  eventos :: "evento list"

text \<open>What pressing the button does.\<close>

definition processar_arquivos :: "arquivo list \<Rightarrow> estado \<Rightarrow> estado" where
  "processar_arquivos uploaded_files st =
     (if uploaded_files \<noteq> []
      then (case laco (length uploaded_files) 0 uploaded_files []
                   (eventos st @ [StProgress 0 1]) of
              (lista_resultados, ev) \<Rightarrow>
                \<lparr>df_resultados = lista_resultados,
                 eventos = ev @ [StSuccess (''Processamento conclu'' @ [CHR 0xED]
                                   @ ''do! Confira os resultados abaixo.'')]\<rparr>)
      else st\<lparr>eventos := eventos st
                 @ [StWarning (''Por favor, fa'' @ [CHR 0xE7]
                      @ ''a upload de pelo menos um arquivo PDF.'')]\<rparr>)"

definition sentinelas :: "string list" where
  "sentinelas = [nao_encontrado, erro_ao_ler]"

definition sucesso_df :: "linha list \<Rightarrow> linha list" where
  "sucesso_df df = filter (\<lambda>l. col_saldo l \<notin> set sentinelas) df"

definition falha_df :: "linha list \<Rightarrow> linha list" where
  "falha_df df = filter (\<lambda>l. col_saldo l \<in> set sentinelas) df"

text \<open>The tables and the download button.\<close>

definition mostrar :: "estado \<Rightarrow> estado" where
  "mostrar st =
     (let df = df_resultados st in
      if df = [] then st
      else st\<lparr>eventos := eventos st
             @ (if sucesso_df df \<noteq> []
                then [StDataframe [''Arquivo'', ''Data'', ''Saldo do Dia''] (sucesso_df df)] else [])
             @ (if falha_df df \<noteq> []
                then [StDataframe [''Arquivo'', ''Saldo do Dia''] (falha_df df)] else [])
             @ [StDownload df]\<rparr>)"

text \<open>
  One run of the script: the session state may not hold the table yet, the button may
  have been pressed.
\<close>

definition main :: "arquivo list \<Rightarrow> bool \<Rightarrow> linha list option \<Rightarrow> estado" where
  "main uploaded_files botao sessao =
     (let st0 = \<lparr>df_resultados = (case sessao of None \<Rightarrow> [] | Some df \<Rightarrow> df), eventos = []\<rparr>;
          st1 = (if botao then processar_arquivos uploaded_files st0 else st0)
      in mostrar st1)"

section \<open>Definitions that state the properties\<close>

text \<open>The rows of one file, as the loop of \<open>main\<close> adds them.\<close>

definition linhas_de :: "arquivo \<Rightarrow> linha list" where
  "linhas_de a = linhas_do_arquivo (file_name a) (fst (extrair_dados_pdf a))"

text \<open>
  The document text as the specification words it: every page text, each followed by a
  newline.
\<close>

definition document_text_spec :: "string list \<Rightarrow> string" where
  "document_text_spec page_texts = concat (map (\<lambda>t. t @ [CHR 0x0A]) page_texts)"

text \<open>The text that a page contributes, and whether reading it raises.\<close>

fun texto_da_pagina :: "pagina \<Rightarrow> string" where
  "texto_da_pagina (ExtractRaises e) = []"
| "texto_da_pagina (ExtractText None) = []"
| "texto_da_pagina (ExtractText (Some t)) = t"

fun pagina_falha :: "pagina \<Rightarrow> bool" where
  "pagina_falha (ExtractRaises e) = True"
| "pagina_falha (ExtractText t) = False"

text \<open>
  An amount token as the pattern has it, at position \<open>i\<close> of the text: one
  character that is a digit or a dot, a comma, two digits.
\<close>

definition valor_em :: "string \<Rightarrow> nat \<Rightarrow> bool" where
  "valor_em s i \<longleftrightarrow>
     i + 4 \<le> length s \<and> cls_valor (s ! i) \<and> s ! (i + 1) = CHR '','' \<and>
     isdecimal (s ! (i + 2)) \<and> isdecimal (s ! (i + 3))"

text \<open>The record that the loop over the matches builds from a match with two groups.\<close>

definition registro :: "string \<Rightarrow> match \<Rightarrow> string \<times> string" where
  "registro s m =
     (substr s (m_groups m ! 0), saldo_limpo (strip (substr s (m_groups m ! 1))))"

text \<open>The shape of a cleaned balance: digits, a comma, two digits.\<close>

definition forma_saldo :: "string \<Rightarrow> bool" where
  "forma_saldo b \<longleftrightarrow>
     3 \<le> length b \<and> list_all isdecimal (take (length b - 3) b) \<and>
     b ! (length b - 3) = CHR '','' \<and> isdecimal (b ! (length b - 2)) \<and>
     isdecimal (b ! (length b - 1))"

text \<open>
  Leftmost-first, non-overlapping: from \<open>pos\<close> on, each match starts at the first
  position where the pattern matches, is the first way the matcher finds there, is not
  empty, and the scan goes on from its end.
\<close>

fun leftmost_first :: "rx \<Rightarrow> string \<Rightarrow> nat \<Rightarrow> match list \<Rightarrow> bool" where
  "leftmost_first r s pos [] \<longleftrightarrow> (\<forall>p \<in> {pos..length s}. rx_match r s p = [])"
| "leftmost_first r s pos (m # ms) \<longleftrightarrow>
     pos \<le> m_start m \<and> m_start m < m_end m \<and> m_end m \<le> length s \<and>
     (\<forall>p \<in> {pos..<m_start m}. rx_match r s p = []) \<and>
     (case rx_match r s (m_start m) of [] \<Rightarrow> False
      | x # _ \<Rightarrow> x = (m_end m, m_groups m)) \<and>
     leftmost_first r s (m_end m) ms"

text \<open>The rows of a file that come from extracted records, and its sentinel rows.\<close>

definition linhas_reais :: "arquivo \<Rightarrow> linha list" where
  "linhas_reais a =
     (case fst (extrair_dados_pdf a) of
        RList rs \<Rightarrow> map (\<lambda>(d, b). \<lparr>col_arquivo = file_name a, col_data = d, col_saldo = b\<rparr>) rs
      | RStr e \<Rightarrow> [])"

definition linhas_sentinela :: "arquivo \<Rightarrow> linha list" where
  "linhas_sentinela a =
     (case fst (extrair_dados_pdf a) of
        RList rs \<Rightarrow>
          (if rs = []
           then [\<lparr>col_arquivo = file_name a, col_data = ''N/A'', col_saldo = nao_encontrado\<rparr>]
           else [])
      | RStr e \<Rightarrow> [\<lparr>col_arquivo = file_name a, col_data = ''N/A'', col_saldo = erro_ao_ler\<rparr>])"

section \<open>Evaluation\<close>

declare finditer_from.simps [simp del]

lemma each_result_Nil [simp]: "each_result [] f = []"
  by (simp add: each_result_def)

lemma each_result_Cons [simp]: "each_result (x # xs) f = f x @ each_result xs f"
  by (simp add: each_result_def)

text \<open>
  With this rule the simplifier runs the matcher as the program does: the second part of
  a sequence is only tried at the positions where the first part has matched.
\<close>

lemma each_result_weak_cong: "xs = ys \<Longrightarrow> each_result xs f = each_result ys f"
  by simp

lemmas avaliar =
  regex_saldo_dia_def seq_def lit_ic_def rx_data_def rx_valor_def isdecimal_def isspace_def
  cls_valor_def cls_cd_def tolower_def maiusculas_def minusculas_def rx_match.simps
  finditer_def finditer_from.simps group_def substr_def strip_def saldo_limpo_def
  extrair_dados_pdf_def tentar_def ler_texto_def

section \<open>The two scenarios of the specification\<close>


text \<open>
  C1. Scenario 1: a document with the one line
  \<open>01/09/2025 123 SALDO DIA 0,00 C 15.043,90 C\<close>. The specification expects the
  record \<open>(01/09/2025, 15043,90)\<close>. The pattern of the source accepts one character
  before the comma of an amount, so \<open>15.043,90\<close> is not an amount for it, and the
  function returns the empty list.
\<close>

theorem cenario_1_lista_vazia:
  "extrair_dados_pdf
     \<lparr>file_name = ''extrato.pdf'',
      conteudo = Pages [ExtractText (Some ''01/09/2025 123 SALDO DIA 0,00 C 15.043,90 C'')]\<rparr>
   = (Found [], [])"
  by (simp add: avaliar cong: each_result_weak_cong)

text \<open>
  C2. Scenario 2: a document with the one line
  \<open>05/09/25 45 SALDO DIA 1.200,50 D 9.876,00\<close>. The specification expects the
  record \<open>(05/09/25, 9876,00)\<close>; neither \<open>1.200,50\<close> nor \<open>9.876,00\<close> is an
  amount for the pattern of the source, and the function returns the empty list.
\<close>

theorem cenario_2_lista_vazia:
  "extrair_dados_pdf
     \<lparr>file_name = ''extrato.pdf'',
      conteudo = Pages [ExtractText (Some ''05/09/25 45 SALDO DIA 1.200,50 D 9.876,00'')]\<rparr>
   = (Found [], [])"
  by (simp add: avaliar cong: each_result_weak_cong)

text \<open>
  With the pattern as the specification words it, the two scenarios give the records
  that the specification states: the quantifier on the class is the whole difference.
\<close>

lemma cenario_1_padrao_da_especificacao:
  "resultados_encontrados (''01/09/2025 123 SALDO DIA 0,00 C 15.043,90 C'' @ [CHR 0x0A])
     (finditer regex_spec (''01/09/2025 123 SALDO DIA 0,00 C 15.043,90 C'' @ [CHR 0x0A])) []
   = Inr [(''01/09/2025'', ''15043,90'')]"
  by (simp add: avaliar regex_spec_def rx_valor_spec_def cong: each_result_weak_cong)

lemma cenario_2_padrao_da_especificacao:
  "resultados_encontrados (''05/09/25 45 SALDO DIA 1.200,50 D 9.876,00'' @ [CHR 0x0A])
     (finditer regex_spec (''05/09/25 45 SALDO DIA 1.200,50 D 9.876,00'' @ [CHR 0x0A])) []
   = Inr [(''05/09/25'', ''9876,00'')]"
  by (simp add: avaliar regex_spec_def rx_valor_spec_def cong: each_result_weak_cong)

text \<open>
  With one character before each comma the same lines are found by the pattern of the
  source, the second one without a marker after the balance.
\<close>

lemma linhas_com_um_digito:
  "extrair_dados_pdf
     \<lparr>file_name = ''extrato.pdf'',
      conteudo = Pages [ExtractText (Some ''01/09/2025 123 SALDO DIA 0,00 C 5,90 C''),
                        ExtractText (Some ''05/09/25 45 saldo dia .,50 D 9,00'')]\<rparr>
   = (Found [(''01/09/2025'', ''5,90''), (''05/09/25'', ''9,00'')], [])"
  by (simp add: avaliar cong: each_result_weak_cong)

section \<open>The rows of the report\<close>

text \<open>
  C3. For one document, the empty list gives the one row with
  \<open>Saldo n\<close>\<open>o encontrado\<close> (the a with tilde is code point E3), the error string
  gives the one row with \<open>Erro ao ler PDF\<close>, a non-empty list gives one row per
  record with the name of the document, the date and the balance, and the two sentinel
  strings differ.
\<close>

theorem linhas_do_arquivo_casos:
  "linhas_do_arquivo nome (Found [])
     = [\<lparr>col_arquivo = nome, col_data = ''N/A'',
         col_saldo = ''Saldo n'' @ [CHR 0xE3] @ ''o encontrado''\<rparr>]
   \<and> linhas_do_arquivo nome ReadError
     = [\<lparr>col_arquivo = nome, col_data = ''N/A'', col_saldo = ''Erro ao ler PDF''\<rparr>]
   \<and> linhas_do_arquivo nome (Found (r # rs))
     = map (\<lambda>(d, b). \<lparr>col_arquivo = nome, col_data = d, col_saldo = b\<rparr>) (r # rs)
   \<and> length (linhas_do_arquivo nome (Found (r # rs))) = length (r # rs)
   \<and> nao_encontrado \<noteq> erro_ao_ler"
  by (simp add: linhas_do_arquivo_def nao_encontrado_def erro_ao_ler_def)

text \<open>
  C8. With no uploaded file the button leaves the table of the session as it was and adds
  one warning, and nothing else; the run of the script then shows the table it had.
\<close>

theorem zero_arquivos:
  "df_resultados (processar_arquivos [] st) = df_resultados st
   \<and> eventos (processar_arquivos [] st)
       = eventos st @ [StWarning (''Por favor, fa'' @ [CHR 0xE7]
                          @ ''a upload de pelo menos um arquivo PDF.'')]
   \<and> df_resultados (main [] True (Some df)) = df
   \<and> df_resultados (main [] True None) = []"
  by (simp add: processar_arquivos_def main_def mostrar_def Let_def)

lemma laco_linhas:
  "fst (laco n i files lista ev) = lista @ concat (map linhas_de files)"
proof (induction files arbitrary: i lista ev)
  case Nil
  then show ?case by simp
next
  case (Cons f files)
  then show ?case by (simp add: linhas_de_def split: prod.splits)
qed

lemma df_processar:
  "files \<noteq> [] \<Longrightarrow>
   df_resultados (processar_arquivos files st) = concat (map linhas_de files)"
  using laco_linhas [of "length files" 0 files "[]" "eventos st @ [StProgress 0 1]"]
  by (auto simp: processar_arquivos_def split: prod.splits)

lemma extrair_casos:
  "fst (extrair_dados_pdf a) = ReadError \<or> (\<exists>rs. fst (extrair_dados_pdf a) = Found rs)"
  by (simp add: extrair_dados_pdf_def split: sum.splits)

lemma linhas_de_nao_vazio: "linhas_de a \<noteq> []"
  using extrair_casos [of a]
  by (auto simp: linhas_de_def linhas_do_arquivo_def split: if_splits)

lemma linhas_de_falha:
  "ler_texto (conteudo f) = Inl e \<Longrightarrow>
   linhas_de f = [\<lparr>col_arquivo = file_name f, col_data = ''N/A'', col_saldo = erro_ao_ler\<rparr>]"
  by (simp add: linhas_de_def linhas_do_arquivo_def extrair_dados_pdf_def tentar_def)

text \<open>
  C5. When reading the text of a document of the batch fails, the table has the rows of
  the documents before it, its one error row, and the rows of every document after it;
  each of those has at least one row.
\<close>

theorem erro_nao_aborta_lote:
  assumes "ler_texto (conteudo f) = Inl e"
  shows "df_resultados (processar_arquivos (antes @ f # depois) st)
           = concat (map linhas_de antes)
             @ [\<lparr>col_arquivo = file_name f, col_data = ''N/A'', col_saldo = ''Erro ao ler PDF''\<rparr>]
             @ concat (map linhas_de depois)
         \<and> (\<forall>a \<in> set depois. linhas_de a \<noteq> [])"
  using assms df_processar [of "antes @ f # depois" st] linhas_de_falha [OF assms]
  by (simp add: linhas_de_nao_vazio erro_ao_ler_def)

theorem erro_nao_aborta_lote_witness:
  "ler_texto (conteudo \<lparr>file_name = ''b.pdf'',
                        conteudo = Pages [ExtractText (Some ''x''), ExtractRaises ''EOF'']\<rparr>)
     = Inl ''EOF''
   \<and> df_resultados (processar_arquivos
        ([\<lparr>file_name = ''a.pdf'',
           conteudo = Pages [ExtractText (Some ''01/09/25 1 SALDO DIA 0,00 C 1,50 C'')]\<rparr>]
         @ \<lparr>file_name = ''b.pdf'',
            conteudo = Pages [ExtractText (Some ''x''), ExtractRaises ''EOF'']\<rparr>
         # [\<lparr>file_name = ''c.pdf'', conteudo = Pages []\<rparr>])
        \<lparr>df_resultados = [], eventos = []\<rparr>)
     = [\<lparr>col_arquivo = ''a.pdf'', col_data = ''01/09/25'', col_saldo = ''1,50''\<rparr>,
        \<lparr>col_arquivo = ''b.pdf'', col_data = ''N/A'', col_saldo = ''Erro ao ler PDF''\<rparr>,
        \<lparr>col_arquivo = ''c.pdf'', col_data = ''N/A'',
         col_saldo = ''Saldo n'' @ [CHR 0xE3] @ ''o encontrado''\<rparr>]"
proof -
  have h: "ler_texto (conteudo \<lparr>file_name = ''b.pdf'',
                        conteudo = Pages [ExtractText (Some ''x''), ExtractRaises ''EOF'']\<rparr>)
             = Inl ''EOF''"
    by (simp add: ler_texto_def)
  have a: "linhas_de \<lparr>file_name = ''a.pdf'',
             conteudo = Pages [ExtractText (Some ''01/09/25 1 SALDO DIA 0,00 C 1,50 C'')]\<rparr>
           = [\<lparr>col_arquivo = ''a.pdf'', col_data = ''01/09/25'', col_saldo = ''1,50''\<rparr>]"
    by (simp add: linhas_de_def linhas_do_arquivo_def avaliar cong: each_result_weak_cong)
  have c: "linhas_de \<lparr>file_name = ''c.pdf'', conteudo = Pages []\<rparr>
           = [\<lparr>col_arquivo = ''c.pdf'', col_data = ''N/A'', col_saldo = nao_encontrado\<rparr>]"
    by (simp add: linhas_de_def linhas_do_arquivo_def avaliar)
  show ?thesis
    using h a c
      erro_nao_aborta_lote [OF h,
        of "[\<lparr>file_name = ''a.pdf'',
              conteudo = Pages [ExtractText (Some ''01/09/25 1 SALDO DIA 0,00 C 1,50 C'')]\<rparr>]"
           "[\<lparr>file_name = ''c.pdf'', conteudo = Pages []\<rparr>]"
           "\<lparr>df_resultados = [], eventos = []\<rparr>"]
    by (simp add: nao_encontrado_def)
qed

section \<open>The text of a document\<close>

lemma texto_completo_acc:
  "\<forall>p \<in> set ps. \<not> pagina_falha p \<Longrightarrow>
   texto_completo ps acc =
     Inr (acc @ document_text_spec (filter (\<lambda>t. t \<noteq> []) (map texto_da_pagina ps)))"
proof (induction ps acc rule: texto_completo.induct)
  case (1 acc)
  then show ?case by (simp add: document_text_spec_def)
next
  case (2 e ps acc)
  then show ?case by simp
next
  case (3 ps acc)
  then show ?case by simp
next
  case (4 texto_pagina ps acc)
  then show ?case by (simp add: document_text_spec_def)
qed

text \<open>
  C7, as the specification states it: every page text followed by a newline, the empty
  ones too. The source skips a page whose text is empty: for the pages \<open>a\<close>, empty,
  \<open>b\<close> it builds \<open>a\<close>, newline, \<open>b\<close>, newline, with no line for the empty page.
\<close>

theorem paginas_vazias_contraexemplo:
  "texto_completo [ExtractText (Some ''a''), ExtractText (Some ''''), ExtractText (Some ''b'')] []
     \<noteq> Inr (document_text_spec [''a'', '''', ''b''])"
  by (simp add: document_text_spec_def)

text \<open>
  C7, amended: when no page raises, the text handed to the matcher is the concatenation,
  in page order, of the page texts that are not empty, each followed by a newline; a
  page with no text or with the empty text adds nothing.
\<close>

theorem texto_completo_paginas:
  "\<forall>p \<in> set ps. \<not> pagina_falha p \<Longrightarrow>
   texto_completo ps [] =
     Inr (document_text_spec (filter (\<lambda>t. t \<noteq> []) (map texto_da_pagina ps)))"
  using texto_completo_acc [of ps "[]"] by simp

theorem texto_completo_paginas_witness:
  "list_all (\<lambda>p. \<not> pagina_falha p)
     [ExtractText (Some ''a''), ExtractText (Some ''''), ExtractText None,
      ExtractText (Some ''b'')]
   \<and> texto_completo [ExtractText (Some ''a''), ExtractText (Some ''''), ExtractText None,
                      ExtractText (Some ''b'')] []
       = Inr [CHR ''a'', CHR 0x0A, CHR ''b'', CHR 0x0A]"
  using texto_completo_paginas
    [of "[ExtractText (Some ''a''), ExtractText (Some ''''), ExtractText None,
          ExtractText (Some ''b'')]"]
  by (simp add: document_text_spec_def)

section \<open>What a match of the pattern looks like\<close>

lemma rx_match_Eps_iff: "(e, g) \<in> set (rx_match Eps s i) \<longleftrightarrow> e = i \<and> g = []"
  by (auto simp: rx_match.simps)

lemma rx_match_One_iff:
  "(e, g) \<in> set (rx_match (One p) s i) \<longleftrightarrow> i < length s \<and> p (s ! i) \<and> e = Suc i \<and> g = []"
  by (auto simp: rx_match.simps)

lemma rx_match_Cat_iff:
  "(e, g) \<in> set (rx_match (Cat r1 r2) s i) \<longleftrightarrow>
     (\<exists>j g1 g2. (j, g1) \<in> set (rx_match r1 s i) \<and> (e, g2) \<in> set (rx_match r2 s j) \<and> g = g1 @ g2)"
  by (force simp: each_result_def rx_match.simps)

lemma rx_match_Grp_iff:
  "(e, g) \<in> set (rx_match (Grp r) s i) \<longleftrightarrow>
     (\<exists>g'. (e, g') \<in> set (rx_match r s i) \<and> g = (i, e) # g')"
  by (force simp: rx_match.simps)

declare rx_match.simps [simp del]

lemma takeWhile_run:
  assumes "k < length (takeWhile p xs)"
  shows "k < length xs \<and> p (xs ! k)"
proof -
  have "takeWhile p xs ! k \<in> set (takeWhile p xs)"
    using assms by simp
  then have "p (takeWhile p xs ! k)"
    by (rule set_takeWhileD [THEN conjunct2])
  moreover have "takeWhile p xs ! k = xs ! k"
    using assms by (rule takeWhile_nth)
  moreover have "length (takeWhile p xs) \<le> length xs"
    by (rule length_takeWhile_le)
  ultimately show ?thesis using assms by simp
qed

lemma rx_match_Rep_D:
  assumes "(e, g) \<in> set (rx_match (Rep lo hi p) s i)"
  shows "g = [] \<and> i + lo \<le> e \<and> (\<forall>k. i \<le> k \<and> k < e \<longrightarrow> k < length s \<and> p (s ! k))
         \<and> (\<forall>h. hi = Some h \<longrightarrow> e \<le> i + h)"
proof -
  define n where "n = length (takeWhile p (drop i s))"
  define m where "m = (case hi of None \<Rightarrow> n | Some h \<Rightarrow> min h n)"
  from assms have "(e, g) \<in> (\<lambda>k. (i + k, [])) ` {lo..<Suc m}"
    unfolding m_def n_def by (simp add: rx_match.simps Let_def del: upt_Suc)
  then obtain k where k: "e = i + k" "lo \<le> k" "k \<le> m" and g: "g = []"
    by auto
  have mn: "m \<le> n" by (simp add: m_def split: option.splits)
  have run: "j < length s \<and> p (s ! j)" if "i \<le> j" "j < e" for j
  proof -
    have "j - i < n" using that k mn by simp
    then have "j - i < length (drop i s) \<and> p (drop i s ! (j - i))"
      unfolding n_def by (rule takeWhile_run)
    then have lt: "j - i < length s - i" and pj: "p (drop i s ! (j - i))"
      by simp_all
    from lt have "i \<le> length s" by arith
    then have "drop i s ! (j - i) = s ! (i + (j - i))"
      by (rule nth_drop)
    with lt pj that show ?thesis by simp
  qed
  have up: "e \<le> i + h" if "hi = Some h" for h
    using that k by (simp add: m_def)
  show ?thesis using k g run up by auto
qed

lemma seq_Nil: "seq [] = Eps"
  by (simp add: seq_def)

lemma seq_Cons: "seq (r # rs) = Cat r (seq rs)"
  by (simp add: seq_def)

lemma rx_valor_D:
  assumes "(e, g) \<in> set (rx_match rx_valor s i)"
  shows "g = [] \<and> e = i + 4 \<and> valor_em s i"
proof -
  from assms obtain j where
    a: "i < length s" "cls_valor (s ! i)" "Suc i < length s" "s ! Suc i = CHR '',''"
    and r: "(j, []) \<in> set (rx_match (Rep 2 (Some 2) isdecimal) s (Suc (Suc i)))"
    and e: "e = j" "g = []"
    by (auto simp: rx_valor_def seq_Cons seq_Nil rx_match_Cat_iff rx_match_One_iff
        rx_match_Eps_iff dest: rx_match_Rep_D)
  from rx_match_Rep_D [OF r] have j: "j = i + 4"
    and run: "\<forall>k. Suc (Suc i) \<le> k \<and> k < j \<longrightarrow> k < length s \<and> isdecimal (s ! k)"
    by auto
  from run j have "i + 2 < length s \<and> isdecimal (s ! (i + 2))"
    and "i + 3 < length s \<and> isdecimal (s ! (i + 3))"
    by auto
  with a e j show ?thesis by (simp add: valor_em_def)
qed

lemma lit_ic_Nil: "lit_ic [] = Eps"
  by (simp add: lit_ic_def)

lemma lit_ic_Cons: "lit_ic (c # w) = Cat (One (\<lambda>x. tolower x = tolower c)) (lit_ic w)"
  by (simp add: lit_ic_def)

lemma lit_ic_D:
  "(e, g) \<in> set (rx_match (lit_ic w) s i) \<Longrightarrow> g = [] \<and> e = i + length w"
proof (induction w arbitrary: i g)
  case Nil
  then show ?case by (simp add: lit_ic_Nil rx_match_Eps_iff)
next
  case (Cons c w)
  from Cons.prems obtain g2 where "(e, g2) \<in> set (rx_match (lit_ic w) s (Suc i))" "g = g2"
    by (auto simp: lit_ic_Cons rx_match_Cat_iff rx_match_One_iff)
  with Cons.IH [of g2 "Suc i"] show ?case by simp
qed

lemma rx_match_Rep_None_D:
  assumes "(e, g) \<in> set (rx_match (Rep lo None p) s i)"
  shows "g = [] \<and> i + lo \<le> e \<and> (i \<le> length s \<longrightarrow> e \<le> length s)"
proof -
  from rx_match_Rep_D [OF assms]
  have g: "g = []" "i + lo \<le> e"
    and run: "\<forall>k. i \<le> k \<and> k < e \<longrightarrow> k < length s \<and> p (s ! k)"
    by auto
  have "e \<le> length s" if "i \<le> length s"
  proof (cases "i < e")
    case True
    then have "e - 1 < length s" using run g by simp
    then show ?thesis by simp
  next
    case False
    then show ?thesis using that g by simp
  qed
  with g show ?thesis by simp
qed

lemma rx_match_Rep_Some_D:
  assumes "(e, g) \<in> set (rx_match (Rep lo (Some h) p) s i)"
  shows "g = [] \<and> i + lo \<le> e \<and> e \<le> i + h \<and> (i \<le> length s \<longrightarrow> e \<le> length s)"
proof -
  from rx_match_Rep_D [OF assms]
  have g: "g = []" "i + lo \<le> e" "e \<le> i + h"
    and run: "\<forall>k. i \<le> k \<and> k < e \<longrightarrow> k < length s \<and> p (s ! k)"
    by auto
  have "e \<le> length s" if "i \<le> length s"
  proof (cases "i < e")
    case True
    then have "e - 1 < length s" using run g by simp
    then show ?thesis by simp
  next
    case False
    then show ?thesis using that g by simp
  qed
  with g show ?thesis by simp
qed

lemma rx_data_D:
  assumes "(e, g) \<in> set (rx_match rx_data s i)"
  shows "g = [] \<and> i + 8 \<le> e \<and> e \<le> i + 10"
  using assms
  by (auto simp: rx_data_def seq_Cons seq_Nil rx_match_Cat_iff rx_match_One_iff
      rx_match_Eps_iff dest!: rx_match_Rep_Some_D)

lemma regex_saldo_dia_anatomy:
  assumes "(e, g) \<in> set (rx_match regex_saldo_dia s i)"
  shows "\<exists>d t a. g = [(i, d), (a, a + 4)] \<and> i + 8 \<le> d \<and> d \<le> i + 10 \<and> d + 13 \<le> t
           \<and> valor_em s t \<and> isspace (s ! (t + 4)) \<and> t + 6 \<le> a
           \<and> valor_em s a \<and> a + 4 < length s \<and> isspace (s ! (a + 4))
           \<and> a + 5 \<le> e \<and> e \<le> a + 6 \<and> e \<le> length s"
  using assms
  unfolding regex_saldo_dia_def seq_Cons seq_Nil rx_match_Cat_iff rx_match_Grp_iff
    rx_match_One_iff rx_match_Eps_iff
  apply (auto dest!: rx_data_D rx_valor_D rx_match_Rep_None_D rx_match_Rep_Some_D lit_ic_D)
  subgoal for j ja jb jc je jg jh
    by (rule exI [of _ je]) simp
  done

section \<open>The matches that finditer yields\<close>

lemma leftmost_first_extend:
  assumes "rx_match r s pos = []" and "leftmost_first r s (Suc pos) ms"
  shows "leftmost_first r s pos ms"
proof (cases ms)
  case Nil
  have "rx_match r s p = []" if "p \<in> {pos..length s}" for p
  proof (cases "p = pos")
    case True
    with assms(1) show ?thesis by simp
  next
    case False
    with that have "p \<in> {Suc pos..length s}" by simp
    with assms(2) Nil show ?thesis by simp
  qed
  with Nil show ?thesis by simp
next
  case (Cons m ms')
  have "rx_match r s p = []" if "p \<in> {pos..<m_start m}" for p
  proof (cases "p = pos")
    case True
    with assms(1) show ?thesis by simp
  next
    case False
    with that have "p \<in> {Suc pos..<m_start m}" by simp
    with assms(2) Cons show ?thesis by simp
  qed
  with assms(2) Cons show ?thesis by simp
qed

lemma finditer_from_leftmost:
  assumes "\<And>i e g. (e, g) \<in> set (rx_match r s i) \<Longrightarrow> i < e \<and> e \<le> length s"
  shows "leftmost_first r s pos (finditer_from r s pos)"
  using assms
proof (induction r s pos rule: finditer_from.induct)
  case (1 r s pos)
  show ?case
  proof (cases "length s < pos")
    case True
    then show ?thesis by (simp add: finditer_from.simps)
  next
    case False
    show ?thesis
    proof (cases "rx_match r s pos")
      case Nil
      with False "1.IH"(1) "1.prems"
      have "leftmost_first r s (Suc pos) (finditer_from r s (Suc pos))"
        by simp
      with Nil have "leftmost_first r s pos (finditer_from r s (Suc pos))"
        by (rule leftmost_first_extend)
      with Nil False show ?thesis
        by (simp add: finditer_from.simps [of r s pos])
    next
      case (Cons x xs)
      obtain e g where x: "x = (e, g)" by (cases x)
      with Cons have "(e, g) \<in> set (rx_match r s pos)" by simp
      with "1.prems" have e: "pos < e" "e \<le> length s" by auto
      have "leftmost_first r s (if pos < e then e else pos + 1)
              (finditer_from r s (if pos < e then e else pos + 1))"
        using "1.prems" by (intro "1.IH"(2) [OF False Cons [unfolded x] refl]) auto
      with e have "leftmost_first r s e (finditer_from r s e)"
        by simp
      with Cons x e False show ?thesis
        by (simp add: finditer_from.simps [of r s pos])
    qed
  qed
qed

lemma leftmost_first_matches:
  "leftmost_first r s pos ms \<Longrightarrow> m \<in> set ms \<Longrightarrow>
   pos \<le> m_start m \<and> m_start m < m_end m \<and> m_end m \<le> length s \<and>
   (m_end m, m_groups m) \<in> set (rx_match r s (m_start m))"
proof (induction ms arbitrary: pos)
  case Nil
  then show ?case by simp
next
  case (Cons x ms)
  show ?case
  proof (cases "m = x")
    case True
    with Cons.prems(1) show ?thesis
      by (auto split: list.splits)
  next
    case False
    with Cons.prems have "m \<in> set ms" and "leftmost_first r s (m_end x) ms"
      by auto
    from Cons.IH [OF this(2) this(1)] Cons.prems(1) show ?thesis by auto
  qed
qed

lemma leftmost_first_sorted:
  "leftmost_first r s pos ms \<Longrightarrow> sorted_wrt (\<lambda>m1 m2. m_end m1 \<le> m_start m2) ms"
proof (induction ms arbitrary: pos)
  case Nil
  then show ?case by simp
next
  case (Cons x ms)
  then have rest: "leftmost_first r s (m_end x) ms" by simp
  have "m_end x \<le> m_start m" if "m \<in> set ms" for m
    using leftmost_first_matches [OF rest that] by simp
  with Cons.IH [OF rest] show ?case by simp
qed

lemma regex_saldo_dia_consome:
  "(e, g) \<in> set (rx_match regex_saldo_dia s i) \<Longrightarrow> i < e \<and> e \<le> length s"
  by (drule regex_saldo_dia_anatomy) auto

lemma finditer_regex_leftmost:
  "leftmost_first regex_saldo_dia s 0 (finditer regex_saldo_dia s)"
  unfolding finditer_def
  by (rule finditer_from_leftmost) (rule regex_saldo_dia_consome)

lemma finditer_regex_anatomy:
  assumes "m \<in> set (finditer regex_saldo_dia s)"
  shows "\<exists>d t a. m_groups m = [(m_start m, d), (a, a + 4)] \<and> m_start m + 8 \<le> d
           \<and> d \<le> m_start m + 10 \<and> d + 13 \<le> t
           \<and> valor_em s t \<and> isspace (s ! (t + 4)) \<and> t + 6 \<le> a
           \<and> valor_em s a \<and> a + 4 < length s \<and> isspace (s ! (a + 4))
           \<and> a + 5 \<le> m_end m \<and> m_end m \<le> a + 6 \<and> m_end m \<le> length s"
proof -
  from leftmost_first_matches [OF finditer_regex_leftmost assms]
  have "(m_end m, m_groups m) \<in> set (rx_match regex_saldo_dia s (m_start m))"
    by simp
  then show ?thesis by (rule regex_saldo_dia_anatomy)
qed

section \<open>The records and their balances\<close>

lemma resultados_encontrados_map:
  "\<forall>m \<in> set ms. length (m_groups m) = 2 \<Longrightarrow>
   resultados_encontrados s ms acc = Inr (acc @ map (registro s) ms)"
  by (induction ms arbitrary: acc) (simp_all add: group_def registro_def)

lemma resultados_regex:
  "resultados_encontrados s (finditer regex_saldo_dia s) []
     = Inr (map (registro s) (finditer regex_saldo_dia s))"
proof -
  have "\<forall>m \<in> set (finditer regex_saldo_dia s). length (m_groups m) = 2"
    by (auto dest: finditer_regex_anatomy)
  from resultados_encontrados_map [OF this, of s "[]"] show ?thesis by simp
qed

lemma str_replace_char: "str_replace [c] [] s = filter (\<lambda>x. x \<noteq> c) s"
  by (induction s) auto

lemma saldo_limpo_filter: "saldo_limpo s = filter (\<lambda>x. x \<noteq> CHR ''.'') s"
  by (simp add: saldo_limpo_def str_replace_char)

lemma filter_dropWhile_outros:
  "(\<And>c. P c \<Longrightarrow> \<not> Q c) \<Longrightarrow> filter P (dropWhile Q s) = filter P s"
  by (induction s) auto

lemma filter_strip:
  assumes "\<And>c. P c \<Longrightarrow> \<not> isspace c"
  shows "filter P (strip s) = filter P s"
proof -
  have "filter P (strip s) = rev (filter P (dropWhile isspace (rev (dropWhile isspace s))))"
    by (simp add: strip_def rev_filter)
  also have "\<dots> = rev (filter P (rev (dropWhile isspace s)))"
    using assms by (simp add: filter_dropWhile_outros)
  also have "\<dots> = filter P (dropWhile isspace s)"
    by (simp add: rev_filter)
  also have "\<dots> = filter P s"
    using assms by (simp add: filter_dropWhile_outros)
  finally show ?thesis .
qed

lemma isdecimal_nao_espaco: "isdecimal c \<Longrightarrow> \<not> isspace c"
  by (auto simp: isdecimal_def isspace_def)

lemma isdecimal_nao_ponto: "isdecimal c \<Longrightarrow> c \<noteq> CHR ''.''"
  by (auto simp: isdecimal_def)

lemma cls_valor_nao_espaco: "cls_valor c \<Longrightarrow> \<not> isspace c"
  by (auto simp: cls_valor_def isdecimal_def isspace_def)

lemma saldo_limpo_strip_props:
  "CHR ''.'' \<notin> set (saldo_limpo (strip t))
   \<and> filter (\<lambda>c. isdecimal c \<or> c = CHR '','') (saldo_limpo (strip t))
       = filter (\<lambda>c. isdecimal c \<or> c = CHR '','') t"
proof -
  have keep: "filter (\<lambda>c. isdecimal c \<or> c = CHR '','') (filter (\<lambda>x. x \<noteq> CHR ''.'') u)
                = filter (\<lambda>c. isdecimal c \<or> c = CHR '','') u" for u
    by (induction u) (auto dest: isdecimal_nao_ponto)
  have "filter (\<lambda>c. isdecimal c \<or> c = CHR '','') (strip t)
          = filter (\<lambda>c. isdecimal c \<or> c = CHR '','') t"
    by (rule filter_strip) (auto simp: isspace_def dest: isdecimal_nao_espaco)
  with keep show ?thesis by (simp add: saldo_limpo_filter)
qed

lemma substr_4:
  assumes "a + 4 \<le> length s"
  shows "substr s (a, a + 4) = [s ! a, s ! (a + 1), s ! (a + 2), s ! (a + 3)]"
proof -
  have "drop a s = s ! a # s ! (a + 1) # s ! (a + 2) # s ! (a + 3) # drop (a + 4) s"
    using assms by (simp add: Cons_nth_drop_Suc numeral_eq_Suc)
  then show ?thesis by (simp add: substr_def)
qed

lemma strip_valor:
  assumes "valor_em s a"
  shows "strip (substr s (a, a + 4)) = substr s (a, a + 4)"
  using assms
  by (simp add: valor_em_def substr_4 strip_def cls_valor_nao_espaco isdecimal_nao_espaco)

lemma registro_saldo:
  assumes "m \<in> set (finditer regex_saldo_dia s)"
  shows "\<exists>c d1 d2. group s m 2 = Some [c, CHR '','', d1, d2]
           \<and> cls_valor c \<and> isdecimal d1 \<and> isdecimal d2
           \<and> (\<exists>dt. group s m 1 = Some dt \<and> registro s m = (dt, saldo_limpo (strip [c, CHR '','', d1, d2])))
           \<and> strip [c, CHR '','', d1, d2] = [c, CHR '','', d1, d2]"
proof -
  from finditer_regex_anatomy [OF assms] obtain d a where
    g: "m_groups m = [(m_start m, d), (a, a + 4)]" and v: "valor_em s a"
    by blast
  from v have tok: "substr s (a, a + 4) = [s ! a, CHR '','', s ! (a + 2), s ! (a + 3)]"
    by (simp add: valor_em_def substr_4)
  from v have st: "strip (substr s (a, a + 4)) = substr s (a, a + 4)"
    by (rule strip_valor)
  from g tok st v show ?thesis
    by (simp add: group_def registro_def valor_em_def)
qed

text \<open>
  C4. For every match that the scan of a document text yields, the balance of its record
  is the closing-balance token, that is group 2 of the match, with every dot removed: it
  has no dot, and its digits and its comma are those of the token, in the same order.
  These records, in the order of the matches, are what the loop over the matches returns.
\<close>

theorem saldo_limpo_sem_pontos:
  assumes "m \<in> set (finditer regex_saldo_dia texto)"
  shows "(\<exists>tok. group texto m 2 = Some tok
            \<and> snd (registro texto m) = saldo_limpo (strip tok)
            \<and> snd (registro texto m) = filter (\<lambda>c. c \<noteq> CHR ''.'') tok
            \<and> count_list (snd (registro texto m)) (CHR ''.'') = 0
            \<and> filter (\<lambda>c. isdecimal c \<or> c = CHR '','') (snd (registro texto m))
                = filter (\<lambda>c. isdecimal c \<or> c = CHR '','') tok)
         \<and> resultados_encontrados texto (finditer regex_saldo_dia texto) []
             = Inr (map (registro texto) (finditer regex_saldo_dia texto))"
proof -
  from registro_saldo [OF assms] obtain c d1 d2 dt where
    tok: "group texto m 2 = Some [c, CHR '','', d1, d2]"
    and reg: "registro texto m = (dt, saldo_limpo (strip [c, CHR '','', d1, d2]))"
    and st: "strip [c, CHR '','', d1, d2] = [c, CHR '','', d1, d2]"
    by blast
  let ?tok = "[c, CHR '','', d1, d2]"
  from saldo_limpo_strip_props [of ?tok]
  have "count_list (saldo_limpo (strip ?tok)) (CHR ''.'') = 0"
    and "filter (\<lambda>c. isdecimal c \<or> c = CHR '','') (saldo_limpo (strip ?tok))
           = filter (\<lambda>c. isdecimal c \<or> c = CHR '','') ?tok"
    by (simp_all add: count_list_0_iff)
  moreover have "saldo_limpo (strip ?tok) = filter (\<lambda>c. c \<noteq> CHR ''.'') ?tok"
    using st by (simp add: saldo_limpo_filter)
  ultimately show ?thesis
    using tok reg resultados_regex [of texto] by simp
qed

lemma finditer_exemplo_ponto:
  "finditer regex_saldo_dia ''01/09/25 1 SALDO DIA 0,00 C .,50 C''
     = [\<lparr>m_start = 0, m_end = 34, m_groups = [(0, 8), (28, 32)]\<rparr>]"
  by (simp add: avaliar cong: each_result_weak_cong)

theorem saldo_limpo_sem_pontos_witness:
  "\<lparr>m_start = 0, m_end = 34, m_groups = [(0, 8), (28, 32)]\<rparr>
     \<in> set (finditer regex_saldo_dia ''01/09/25 1 SALDO DIA 0,00 C .,50 C'')
   \<and> group ''01/09/25 1 SALDO DIA 0,00 C .,50 C''
       \<lparr>m_start = 0, m_end = 34, m_groups = [(0, 8), (28, 32)]\<rparr> 2 = Some ''.,50''
   \<and> snd (registro ''01/09/25 1 SALDO DIA 0,00 C .,50 C''
       \<lparr>m_start = 0, m_end = 34, m_groups = [(0, 8), (28, 32)]\<rparr>) = '',50''"
proof -
  have h: "\<lparr>m_start = 0, m_end = 34, m_groups = [(0, 8), (28, 32)]\<rparr>
             \<in> set (finditer regex_saldo_dia ''01/09/25 1 SALDO DIA 0,00 C .,50 C'')"
    by (simp add: finditer_exemplo_ponto)
  have g: "group ''01/09/25 1 SALDO DIA 0,00 C .,50 C''
             \<lparr>m_start = 0, m_end = 34, m_groups = [(0, 8), (28, 32)]\<rparr> 2 = Some ''.,50''"
    by (simp add: group_def substr_def)
  from saldo_limpo_sem_pontos [OF h] g h show ?thesis
    by (simp add: saldo_limpo_filter strip_def isspace_def)
qed

section \<open>White space after the amounts\<close>

text \<open>
  C10. In every match that the scan yields, each of the two amount tokens has a white
  space character right after it in the text: the transaction amount at \<open>t\<close> and
  the closing balance, group 2, at \<open>a\<close>. So group 2 never ends where the text
  ends: an occurrence whose closing balance is the last thing in the text gives no record.
\<close>

theorem espaco_depois_do_valor:
  assumes "m \<in> set (finditer regex_saldo_dia texto)"
  shows "\<exists>d t a. m_groups m = [(m_start m, d), (a, a + 4)]
           \<and> valor_em texto t \<and> t + 4 < length texto \<and> isspace (texto ! (t + 4)) \<and> t + 4 < a
           \<and> valor_em texto a \<and> a + 4 < length texto \<and> isspace (texto ! (a + 4))
           \<and> a + 4 < m_end m
           \<and> snd (m_groups m ! 1) \<noteq> length texto"
proof -
  from finditer_regex_anatomy [OF assms] obtain d t a where
    "m_groups m = [(m_start m, d), (a, a + 4)]" "valor_em texto t"
    "isspace (texto ! (t + 4))" "t + 6 \<le> a" "valor_em texto a" "a + 4 < length texto"
    "isspace (texto ! (a + 4))" "a + 5 \<le> m_end m"
    by blast
  then show ?thesis
    by (intro exI [of _ d] exI [of _ t] exI [of _ a]) simp
qed

lemma finditer_exemplo_um:
  "finditer regex_saldo_dia ''01/09/25 1 SALDO DIA 0,00 C 1,50 C''
     = [\<lparr>m_start = 0, m_end = 34, m_groups = [(0, 8), (28, 32)]\<rparr>]"
  by (simp add: avaliar cong: each_result_weak_cong)

theorem espaco_depois_do_valor_witness:
  "\<lparr>m_start = 0, m_end = 34, m_groups = [(0, 8), (28, 32)]\<rparr>
     \<in> set (finditer regex_saldo_dia ''01/09/25 1 SALDO DIA 0,00 C 1,50 C'')
   \<and> (\<exists>d t a. [(0, 8), (28, 32)] = [(0 :: nat, d), (a, a + 4)]
        \<and> valor_em ''01/09/25 1 SALDO DIA 0,00 C 1,50 C'' t
        \<and> isspace (''01/09/25 1 SALDO DIA 0,00 C 1,50 C'' ! (t + 4))
        \<and> isspace (''01/09/25 1 SALDO DIA 0,00 C 1,50 C'' ! (a + 4)))
   \<and> isspace (''01/09/25 1 SALDO DIA 0,00 C 1,50 C'' ! 32)"
proof -
  have h: "\<lparr>m_start = 0, m_end = 34, m_groups = [(0, 8), (28, 32)]\<rparr>
             \<in> set (finditer regex_saldo_dia ''01/09/25 1 SALDO DIA 0,00 C 1,50 C'')"
    by (simp add: finditer_exemplo_um)
  have "isspace (''01/09/25 1 SALDO DIA 0,00 C 1,50 C'' ! 32)"
    by (simp add: isspace_def)
  with espaco_depois_do_valor [OF h] h show ?thesis by auto
qed

text \<open>The same line with nothing after the closing balance is not found.\<close>

lemma saldo_no_fim_do_texto:
  "finditer regex_saldo_dia ''01/09/25 1 SALDO DIA 0,00 C 1,50'' = []"
  by (simp add: avaliar cong: each_result_weak_cong)

section \<open>The two tables\<close>

lemma extrair_lista:
  assumes "fst (extrair_dados_pdf a) = Found rs"
  shows "\<exists>texto. ler_texto (conteudo a) = Inr texto
           \<and> rs = map (registro texto) (finditer regex_saldo_dia texto)"
  using assms
  by (auto simp: extrair_dados_pdf_def tentar_def resultados_regex split: sum.splits)

lemma extrair_texto_lido:
  "ler_texto (conteudo a) = Inr texto \<Longrightarrow>
   fst (extrair_dados_pdf a) = Found (map (registro texto) (finditer regex_saldo_dia texto))"
  by (simp add: extrair_dados_pdf_def tentar_def resultados_regex)

lemma saldo_forma:
  assumes "m \<in> set (finditer regex_saldo_dia s)"
  shows "forma_saldo (snd (registro s m))"
proof -
  from registro_saldo [OF assms] obtain c d1 d2 dt where
    v: "cls_valor c" "isdecimal d1" "isdecimal d2"
    and reg: "registro s m = (dt, saldo_limpo (strip [c, CHR '','', d1, d2]))"
    and st: "strip [c, CHR '','', d1, d2] = [c, CHR '','', d1, d2]"
    by blast
  show ?thesis
  proof (cases "c = CHR ''.''")
    case True
    with v reg st show ?thesis
      by (simp add: saldo_limpo_filter forma_saldo_def isdecimal_nao_ponto)
  next
    case False
    with v have "isdecimal c" by (simp add: cls_valor_def)
    with False v reg st show ?thesis
      by (simp add: saldo_limpo_filter forma_saldo_def isdecimal_nao_ponto)
  qed
qed

lemma forma_nao_sentinela: "forma_saldo b \<Longrightarrow> b \<notin> set sentinelas"
  by (auto simp: sentinelas_def nao_encontrado_def erro_ao_ler_def forma_saldo_def)

lemma saldo_extraido:
  assumes "fst (extrair_dados_pdf a) = Found rs" and "(d, b) \<in> set rs"
  shows "forma_saldo b \<and> b \<notin> set sentinelas"
proof -
  from extrair_lista [OF assms(1)] obtain texto where
    "rs = map (registro texto) (finditer regex_saldo_dia texto)" by blast
  with assms(2) obtain m where "m \<in> set (finditer regex_saldo_dia texto)"
    and "registro texto m = (d, b)" by auto
  with saldo_forma [of m texto] have "forma_saldo b" by simp
  then show ?thesis by (simp add: forma_nao_sentinela)
qed

lemma particao_do_arquivo:
  "filter (\<lambda>l. col_saldo l \<notin> set sentinelas) (linhas_de a) = linhas_reais a
   \<and> filter (\<lambda>l. col_saldo l \<in> set sentinelas) (linhas_de a) = linhas_sentinela a"
proof -
  from extrair_casos [of a] show ?thesis
  proof
    assume "fst (extrair_dados_pdf a) = ReadError"
    then show ?thesis
      by (simp add: linhas_de_def linhas_do_arquivo_def linhas_reais_def linhas_sentinela_def
          sentinelas_def)
  next
    assume "\<exists>rs. fst (extrair_dados_pdf a) = Found rs"
    then obtain rs where rs: "fst (extrair_dados_pdf a) = Found rs" ..
    show ?thesis
    proof (cases "rs = []")
      case True
      with rs show ?thesis
        by (simp add: linhas_de_def linhas_do_arquivo_def linhas_reais_def
            linhas_sentinela_def sentinelas_def)
    next
      case False
      have "\<forall>r \<in> set rs. snd r \<notin> set sentinelas"
        using saldo_extraido [OF rs] by auto
      then have
        "\<forall>l \<in> set (map (\<lambda>(d, b). \<lparr>col_arquivo = file_name a, col_data = d, col_saldo = b\<rparr>) rs).
           col_saldo l \<notin> set sentinelas"
        by auto
      with rs False show ?thesis
        by (simp add: linhas_de_def linhas_do_arquivo_def linhas_reais_def
            linhas_sentinela_def filter_empty_conv del: set_map)
    qed
  qed
qed

lemma particao_do_lote:
  "sucesso_df (concat (map linhas_de arqs)) = concat (map linhas_reais arqs)
   \<and> falha_df (concat (map linhas_de arqs)) = concat (map linhas_sentinela arqs)"
  by (induction arqs) (simp_all add: sucesso_df_def falha_df_def particao_do_arquivo)

text \<open>
  C9. A balance of a record that \<open>extrair_dados_pdf\<close> returns has the shape digits,
  comma, two digits, and is neither sentinel string. So, for a batch that is not empty,
  the rows shown as found are exactly the rows of the extracted records, and the rows
  shown as not found or failed are exactly the sentinel rows, both in the order of the
  table.
\<close>

theorem particao_exata:
  "(fst (extrair_dados_pdf arq) = Found rs \<and> (d, b) \<in> set rs
      \<longrightarrow> forma_saldo b \<and> b \<noteq> nao_encontrado \<and> b \<noteq> erro_ao_ler)
   \<and> sucesso_df (df_resultados (processar_arquivos (a # arqs) st))
       = concat (map linhas_reais (a # arqs))
   \<and> falha_df (df_resultados (processar_arquivos (a # arqs) st))
       = concat (map linhas_sentinela (a # arqs))"
proof -
  have "forma_saldo b \<and> b \<noteq> nao_encontrado \<and> b \<noteq> erro_ao_ler"
    if "fst (extrair_dados_pdf arq) = Found rs" "(d, b) \<in> set rs"
    using saldo_extraido [OF that] by (auto simp: sentinelas_def)
  moreover have "df_resultados (processar_arquivos (a # arqs) st)
                   = concat (map linhas_de (a # arqs))"
    by (rule df_processar) simp
  ultimately show ?thesis
    using particao_do_lote [of "a # arqs"] by simp
qed

text \<open>Three documents: two pages with one line each, a page that raises, no page.\<close>

lemma extrair_exemplo_a:
  "extrair_dados_pdf
     \<lparr>file_name = ''a.pdf'',
      conteudo = Pages [ExtractText (Some ''01/09/25 1 SALDO DIA 0,00 C 1,50 C''),
                        ExtractText (Some ''02/09/25 2 saldo dia 3,00 D .,75'')]\<rparr>
   = (Found [(''01/09/25'', ''1,50''), (''02/09/25'', '',75'')], [])"
  by (simp add: avaliar cong: each_result_weak_cong)

lemma extrair_exemplo_b:
  "extrair_dados_pdf
     \<lparr>file_name = ''b.pdf'', conteudo = Pages [ExtractText (Some ''x''), ExtractRaises ''EOF'']\<rparr>
   = (ReadError, [StError ''Erro ao processar o arquivo: EOF''])"
  by (simp add: avaliar)

lemma extrair_exemplo_c:
  "extrair_dados_pdf \<lparr>file_name = ''c.pdf'', conteudo = Pages []\<rparr> = (Found [], [])"
  by (simp add: avaliar)

theorem particao_exata_witness:
  "fst (extrair_dados_pdf
     \<lparr>file_name = ''a.pdf'',
      conteudo = Pages [ExtractText (Some ''01/09/25 1 SALDO DIA 0,00 C 1,50 C''),
                        ExtractText (Some ''02/09/25 2 saldo dia 3,00 D .,75'')]\<rparr>)
     = Found [(''01/09/25'', ''1,50''), (''02/09/25'', '',75'')]
   \<and> forma_saldo '',75''
   \<and> sucesso_df (df_resultados (processar_arquivos
        [\<lparr>file_name = ''b.pdf'',
          conteudo = Pages [ExtractText (Some ''x''), ExtractRaises ''EOF'']\<rparr>,
         \<lparr>file_name = ''a.pdf'',
          conteudo = Pages [ExtractText (Some ''01/09/25 1 SALDO DIA 0,00 C 1,50 C''),
                            ExtractText (Some ''02/09/25 2 saldo dia 3,00 D .,75'')]\<rparr>,
         \<lparr>file_name = ''c.pdf'', conteudo = Pages []\<rparr>]
        \<lparr>df_resultados = [], eventos = []\<rparr>))
     = [\<lparr>col_arquivo = ''a.pdf'', col_data = ''01/09/25'', col_saldo = ''1,50''\<rparr>,
        \<lparr>col_arquivo = ''a.pdf'', col_data = ''02/09/25'', col_saldo = '',75''\<rparr>]
   \<and> falha_df (df_resultados (processar_arquivos
        [\<lparr>file_name = ''b.pdf'',
          conteudo = Pages [ExtractText (Some ''x''), ExtractRaises ''EOF'']\<rparr>,
         \<lparr>file_name = ''a.pdf'',
          conteudo = Pages [ExtractText (Some ''01/09/25 1 SALDO DIA 0,00 C 1,50 C''),
                            ExtractText (Some ''02/09/25 2 saldo dia 3,00 D .,75'')]\<rparr>,
         \<lparr>file_name = ''c.pdf'', conteudo = Pages []\<rparr>]
        \<lparr>df_resultados = [], eventos = []\<rparr>))
     = [\<lparr>col_arquivo = ''b.pdf'', col_data = ''N/A'', col_saldo = ''Erro ao ler PDF''\<rparr>,
        \<lparr>col_arquivo = ''c.pdf'', col_data = ''N/A'',
         col_saldo = ''Saldo n'' @ [CHR 0xE3] @ ''o encontrado''\<rparr>]"
  using particao_exata
    [of "\<lparr>file_name = ''a.pdf'',
          conteudo = Pages [ExtractText (Some ''01/09/25 1 SALDO DIA 0,00 C 1,50 C''),
                            ExtractText (Some ''02/09/25 2 saldo dia 3,00 D .,75'')]\<rparr>"
        "[(''01/09/25'', ''1,50''), (''02/09/25'', '',75'')]" "''02/09/25''" "'',75''"
        "\<lparr>file_name = ''b.pdf'',
          conteudo = Pages [ExtractText (Some ''x''), ExtractRaises ''EOF'']\<rparr>"
        "[\<lparr>file_name = ''a.pdf'',
           conteudo = Pages [ExtractText (Some ''01/09/25 1 SALDO DIA 0,00 C 1,50 C''),
                             ExtractText (Some ''02/09/25 2 saldo dia 3,00 D .,75'')]\<rparr>,
          \<lparr>file_name = ''c.pdf'', conteudo = Pages []\<rparr>]"
        "\<lparr>df_resultados = [], eventos = []\<rparr>"]
  by (simp add: extrair_exemplo_a extrair_exemplo_b extrair_exemplo_c
      linhas_reais_def linhas_sentinela_def nao_encontrado_def erro_ao_ler_def)

section \<open>Order\<close>

text \<open>
  C6. The matches of a document text are the leftmost-first, non-overlapping ones, in the
  order of their positions in the text; when the text of a document is read, its records
  are those of the matches in that order, and its rows are those of the records in that
  order, each with the name of the document; the table of a batch is the rows of its
  documents, document after document in upload order.
\<close>

theorem ordem_preservada:
  "leftmost_first regex_saldo_dia texto 0 (finditer regex_saldo_dia texto)
   \<and> sorted_wrt (\<lambda>m1 m2. m_end m1 \<le> m_start m2) (finditer regex_saldo_dia texto)
   \<and> (ler_texto (conteudo arq) = Inr texto \<longrightarrow>
        fst (extrair_dados_pdf arq)
          = Found (map (registro texto) (finditer regex_saldo_dia texto))
        \<and> (finditer regex_saldo_dia texto \<noteq> [] \<longrightarrow>
             linhas_de arq
               = map (\<lambda>m. \<lparr>col_arquivo = file_name arq, col_data = fst (registro texto m),
                              col_saldo = snd (registro texto m)\<rparr>)
                   (finditer regex_saldo_dia texto)))
   \<and> df_resultados (processar_arquivos (a # arqs) st) = concat (map linhas_de (a # arqs))"
proof -
  have lf: "leftmost_first regex_saldo_dia texto 0 (finditer regex_saldo_dia texto)"
    by (rule finditer_regex_leftmost)
  then have so: "sorted_wrt (\<lambda>m1 m2. m_end m1 \<le> m_start m2) (finditer regex_saldo_dia texto)"
    by (rule leftmost_first_sorted)
  have ex: "fst (extrair_dados_pdf arq)
              = Found (map (registro texto) (finditer regex_saldo_dia texto))"
    if "ler_texto (conteudo arq) = Inr texto"
    using that by (rule extrair_texto_lido)
  have li: "linhas_de arq
              = map (\<lambda>m. \<lparr>col_arquivo = file_name arq, col_data = fst (registro texto m),
                             col_saldo = snd (registro texto m)\<rparr>)
                  (finditer regex_saldo_dia texto)"
    if "ler_texto (conteudo arq) = Inr texto" "finditer regex_saldo_dia texto \<noteq> []"
    using ex [OF that(1)] that(2)
    by (simp add: linhas_de_def linhas_do_arquivo_def case_prod_beta comp_def)
  have df: "df_resultados (processar_arquivos (a # arqs) st) = concat (map linhas_de (a # arqs))"
    by (rule df_processar) simp
  from lf so ex li df show ?thesis by blast
qed

lemma finditer_exemplo_dois:
  "finditer regex_saldo_dia
     (''01/09/25 1 SALDO DIA 0,00 C 1,50 C'' @ [CHR 0x0A]
      @ ''02/09/25 2 saldo dia 3,00 D .,75'' @ [CHR 0x0A])
   = [\<lparr>m_start = 0, m_end = 34, m_groups = [(0, 8), (28, 32)]\<rparr>,
      \<lparr>m_start = 35, m_end = 68, m_groups = [(35, 43), (63, 67)]\<rparr>]"
  by (simp add: avaliar cong: each_result_weak_cong)

theorem ordem_preservada_witness:
  "ler_texto (Pages [ExtractText (Some ''01/09/25 1 SALDO DIA 0,00 C 1,50 C''),
                     ExtractText (Some ''02/09/25 2 saldo dia 3,00 D .,75'')])
     = Inr (''01/09/25 1 SALDO DIA 0,00 C 1,50 C'' @ [CHR 0x0A]
            @ ''02/09/25 2 saldo dia 3,00 D .,75'' @ [CHR 0x0A])
   \<and> leftmost_first regex_saldo_dia
        (''01/09/25 1 SALDO DIA 0,00 C 1,50 C'' @ [CHR 0x0A]
         @ ''02/09/25 2 saldo dia 3,00 D .,75'' @ [CHR 0x0A]) 0
        [\<lparr>m_start = 0, m_end = 34, m_groups = [(0, 8), (28, 32)]\<rparr>,
         \<lparr>m_start = 35, m_end = 68, m_groups = [(35, 43), (63, 67)]\<rparr>]
   \<and> df_resultados (processar_arquivos
        [\<lparr>file_name = ''c.pdf'', conteudo = Pages []\<rparr>,
         \<lparr>file_name = ''a.pdf'',
          conteudo = Pages [ExtractText (Some ''01/09/25 1 SALDO DIA 0,00 C 1,50 C''),
                            ExtractText (Some ''02/09/25 2 saldo dia 3,00 D .,75'')]\<rparr>]
        \<lparr>df_resultados = [], eventos = []\<rparr>)
     = [\<lparr>col_arquivo = ''c.pdf'', col_data = ''N/A'',
         col_saldo = ''Saldo n'' @ [CHR 0xE3] @ ''o encontrado''\<rparr>,
        \<lparr>col_arquivo = ''a.pdf'', col_data = ''01/09/25'', col_saldo = ''1,50''\<rparr>,
        \<lparr>col_arquivo = ''a.pdf'', col_data = ''02/09/25'', col_saldo = '',75''\<rparr>]"
proof -
  let ?t = "''01/09/25 1 SALDO DIA 0,00 C 1,50 C'' @ [CHR 0x0A]
            @ ''02/09/25 2 saldo dia 3,00 D .,75'' @ [CHR 0x0A]"
  let ?a = "\<lparr>file_name = ''a.pdf'',
             conteudo = Pages [ExtractText (Some ''01/09/25 1 SALDO DIA 0,00 C 1,50 C''),
                               ExtractText (Some ''02/09/25 2 saldo dia 3,00 D .,75'')]\<rparr>"
  let ?c = "\<lparr>file_name = ''c.pdf'', conteudo = Pages []\<rparr>"
  let ?st = "\<lparr>df_resultados = [], eventos = []\<rparr>"
  note geral = ordem_preservada [of ?t ?a ?c "[?a]" ?st]
  have t: "ler_texto (Pages [ExtractText (Some ''01/09/25 1 SALDO DIA 0,00 C 1,50 C''),
                     ExtractText (Some ''02/09/25 2 saldo dia 3,00 D .,75'')]) = Inr ?t"
    by (simp add: ler_texto_def)
  from geral have "leftmost_first regex_saldo_dia ?t 0 (finditer regex_saldo_dia ?t)"
    by (elim conjE)
  then have lf: "leftmost_first regex_saldo_dia ?t 0
                   [\<lparr>m_start = 0, m_end = 34, m_groups = [(0, 8), (28, 32)]\<rparr>,
                    \<lparr>m_start = 35, m_end = 68, m_groups = [(35, 43), (63, 67)]\<rparr>]"
    by (simp only: finditer_exemplo_dois)
  from geral have "df_resultados (processar_arquivos [?c, ?a] ?st)
                     = concat (map linhas_de [?c, ?a])"
    by (elim conjE)
  then have df: "df_resultados (processar_arquivos [?c, ?a] ?st)
      = [\<lparr>col_arquivo = ''c.pdf'', col_data = ''N/A'',
          col_saldo = ''Saldo n'' @ [CHR 0xE3] @ ''o encontrado''\<rparr>,
         \<lparr>col_arquivo = ''a.pdf'', col_data = ''01/09/25'', col_saldo = ''1,50''\<rparr>,
         \<lparr>col_arquivo = ''a.pdf'', col_data = ''02/09/25'', col_saldo = '',75''\<rparr>]"
    by (simp add: extrair_exemplo_a extrair_exemplo_c linhas_de_def linhas_do_arquivo_def
        nao_encontrado_def)
  show ?thesis
    by (intro conjI t lf df)
qed

end
